theory Spec2Isabelle
  imports Complex_Main "HOL-Library.Log_Nat"
begin

section \<open>The numbers of the TypeScript source\<close>

text \<open>
  The functions of \<^verbatim>\<open>apps/web/src/lib/utils.ts\<close> take and return values of the
  TypeScript type \<^verbatim>\<open>number\<close>, the binary64 format of IEEE 754. A \<^verbatim>\<open>number\<close> is
  either finite, or one of \<^verbatim>\<open>Infinity\<close>, \<^verbatim>\<open>-Infinity\<close> and \<^verbatim>\<open>NaN\<close>. A finite
  number is written \<open>Fin x\<close>, where \<open>x\<close> is the rational it stands for. The two zeros
  \<^verbatim>\<open>+0\<close> and \<^verbatim>\<open>-0\<close>, which \<^verbatim>\<open>===\<close> does not tell apart, are the one value
  \<open>Fin 0\<close>.
\<close>

datatype number = Fin rat | PosInf | NegInf | NaN

subsection \<open>Rounding to binary64\<close>

text \<open>
  Every arithmetic operation returns the exact result rounded to the nearest binary64
  value, to the one with an even significand when two are equally near.

  \<open>ilog2 x\<close> is the exponent of a positive \<open>x\<close>: the integer \<open>e\<close> with
  \<open>2^e \<le> x < 2^(e+1)\<close>. It is the difference of the bit lengths of numerator and
  denominator, or one less.
\<close>

definition ilog2 :: "rat \<Rightarrow> int" where
  "ilog2 x =
     (let (p, q) = quotient_of x; d = bitlen p - bitlen q
      in if 2 powi d \<le> x then d else d - 1)"

text \<open>The nearest integer, the even one of the two at a tie.\<close>

definition round_half_even :: "rat \<Rightarrow> int" where
  "round_half_even y =
     (let f = \<lfloor>y\<rfloor>; d = y - of_int f
      in if d < 1 / 2 then f else if 1 / 2 < d then f + 1 else if even f then f else f + 1)"

text \<open>
  A binary64 value has a significand of 53 bits and an exponent from \<open>-1022\<close> to
  \<open>1023\<close>. The values around \<open>x\<close> are therefore the multiples of \<open>2^(e - 52)\<close>, where
  \<open>e\<close> is the exponent of \<open>\<bar>x\<bar>\<close>, and \<open>-1022\<close> when that is smaller (the subnormal
  range, where results underflow, down to zero). A result that rounds to \<open>2^1024\<close> or
  more overflows to an infinity.
\<close>

definition binary64 :: "rat \<Rightarrow> number" where
  "binary64 x =
     (if x = 0 then Fin 0
      else
        let e = max (ilog2 \<bar>x\<bar>) (- 1022);
            u = 2 powi (e - 52);
            r = of_int (round_half_even (\<bar>x\<bar> / u)) * u
        in if 2 powi 1024 \<le> r then (if 0 < x then PosInf else NegInf)
           else Fin (if 0 < x then r else - r))"

subsection \<open>The operators\<close>

text \<open>The operator \<^verbatim>\<open>+\<close> on two numbers.\<close>

fun js_add :: "number \<Rightarrow> number \<Rightarrow> number" where
  "js_add NaN _ = NaN"
| "js_add _ NaN = NaN"
| "js_add (Fin a) (Fin b) = binary64 (a + b)"
| "js_add (Fin _) PosInf = PosInf"
| "js_add (Fin _) NegInf = NegInf"
| "js_add PosInf (Fin _) = PosInf"
| "js_add NegInf (Fin _) = NegInf"
| "js_add PosInf PosInf = PosInf"
| "js_add NegInf NegInf = NegInf"
| "js_add PosInf NegInf = NaN"
| "js_add NegInf PosInf = NaN"

text \<open>The operator \<^verbatim>\<open>*\<close>: an infinity times zero is \<^verbatim>\<open>NaN\<close>.\<close>

fun js_mul :: "number \<Rightarrow> number \<Rightarrow> number" where
  "js_mul NaN _ = NaN"
| "js_mul _ NaN = NaN"
| "js_mul (Fin a) (Fin b) = binary64 (a * b)"
| "js_mul (Fin a) PosInf = (if a = 0 then NaN else if 0 < a then PosInf else NegInf)"
| "js_mul (Fin a) NegInf = (if a = 0 then NaN else if 0 < a then NegInf else PosInf)"
| "js_mul PosInf (Fin b) = (if b = 0 then NaN else if 0 < b then PosInf else NegInf)"
| "js_mul NegInf (Fin b) = (if b = 0 then NaN else if 0 < b then NegInf else PosInf)"
| "js_mul PosInf PosInf = PosInf"
| "js_mul NegInf NegInf = PosInf"
| "js_mul PosInf NegInf = NegInf"
| "js_mul NegInf PosInf = NegInf"

text \<open>
  The operator \<^verbatim>\<open>/\<close>. Dividing by zero raises nothing in JavaScript: a non-zero
  dividend gives an infinity of its own sign and \<^verbatim>\<open>0 / 0\<close> is \<^verbatim>\<open>NaN\<close>. A zero
  divisor is read as \<^verbatim>\<open>+0\<close>; the only divisor of the source that can be zero is the
  square \<^verbatim>\<open>heightM * heightM\<close>, whose zero is \<^verbatim>\<open>+0\<close> also when it comes from
  underflow.
\<close>

fun js_div :: "number \<Rightarrow> number \<Rightarrow> number" where
  "js_div NaN _ = NaN"
| "js_div _ NaN = NaN"
| "js_div (Fin a) (Fin b) =
     (if b \<noteq> 0 then binary64 (a / b)
      else if 0 < a then PosInf
      else if a < 0 then NegInf
      else NaN)"
| "js_div (Fin _) PosInf = Fin 0"
| "js_div (Fin _) NegInf = Fin 0"
| "js_div PosInf (Fin b) = (if 0 \<le> b then PosInf else NegInf)"
| "js_div NegInf (Fin b) = (if 0 \<le> b then NegInf else PosInf)"
| "js_div PosInf PosInf = NaN"
| "js_div PosInf NegInf = NaN"
| "js_div NegInf PosInf = NaN"
| "js_div NegInf NegInf = NaN"

text \<open>The comparison \<^verbatim>\<open>>=\<close>: false whenever an operand is \<^verbatim>\<open>NaN\<close>.\<close>

fun js_ge :: "number \<Rightarrow> number \<Rightarrow> bool" where
  "js_ge NaN _ = False"
| "js_ge _ NaN = False"
| "js_ge (Fin a) (Fin b) = (b \<le> a)"
| "js_ge (Fin _) PosInf = False"
| "js_ge (Fin _) NegInf = True"
| "js_ge PosInf _ = True"
| "js_ge NegInf NegInf = True"
| "js_ge NegInf _ = False"

text \<open>Unary minus, which is exact.\<close>

fun js_neg :: "number \<Rightarrow> number" where
  "js_neg (Fin a) = Fin (- a)"
| "js_neg PosInf = NegInf"
| "js_neg NegInf = PosInf"
| "js_neg NaN = NaN"

subsection \<open>\<^verbatim>\<open>toFixed(1)\<close> and \<^verbatim>\<open>Number\<close>\<close>

text \<open>
  The string that \<^verbatim>\<open>x.toFixed(1)\<close> returns is kept in structured form. \<open>Fixed neg n\<close>
  is the decimal expansion of \<open>n / 10\<close> with one digit after the point, preceded by
  \<^verbatim>\<open>-\<close> when \<open>neg\<close> holds. \<open>Printed v\<close> is the ordinary printed form of \<open>v\<close>, which
  \<^verbatim>\<open>toFixed\<close> returns for a value that is not finite or whose magnitude reaches
  \<open>10^21\<close>.

  For a finite \<open>x\<close> below that magnitude, ECMAScript sets the sign aside, and picks the
  integer \<open>n\<close> for which \<open>n / 10 - \<bar>x\<bar>\<close> is as close to zero as possible, the larger
  one when there are two: that is \<open>\<lfloor>\<bar>x\<bar> * 10 + 1/2\<rfloor>\<close>, computed on the exact value of
  \<open>x\<close>. A digit count of 1 is within the range 0 to 100, so the call raises no
  \<^verbatim>\<open>RangeError\<close>.
\<close>

datatype numstr = Fixed bool nat | Printed number

fun toFixed1 :: "number \<Rightarrow> numstr" where
  "toFixed1 (Fin x) =
     (if 10 ^ 21 \<le> \<bar>x\<bar> then Printed (Fin x)
      else Fixed (x < 0) (nat \<lfloor>\<bar>x\<bar> * 10 + 1 / 2\<rfloor>))"
| "toFixed1 v = Printed v"

text \<open>
  \<^verbatim>\<open>Number(s)\<close> reads the string back as the binary64 value nearest to the decimal it
  spells; a printed number reads back as itself.
\<close>

fun Number_of :: "numstr \<Rightarrow> number" where
  "Number_of (Fixed neg n) = binary64 ((if neg then - 1 else 1) * (of_nat n / 10))"
| "Number_of (Printed v) = v"

section \<open>The assessment metrics of \<^verbatim>\<open>lib/utils.ts\<close>\<close>

text \<open>
  None of the three functions contains a \<^verbatim>\<open>throw\<close>, and none of the operations they
  use raises on numbers, so each is a total function into its result type.
\<close>

definition calculateBMI :: "number \<Rightarrow> number \<Rightarrow> number" where
  "calculateBMI weightKg heightCm =
     (let heightM = js_div heightCm (Fin 100)
      in Number_of (toFixed1 (js_div weightKg (js_mul heightM heightM))))"

text \<open>
  The parameter of \<^verbatim>\<open>calculateFMSTotal\<close>: an object of seven \<^verbatim>\<open>number\<close> fields,
  which is also the type \<^verbatim>\<open>Omit<FMSScores, "total_score">\<close> of the wizard's state.
\<close>

record FMSInput =
  deep_squat :: number
  hurdle_step :: number
  inline_lunge :: number
  shoulder_mobility :: number
  active_straight_leg_raise :: number
  trunk_stability_pushup :: number
  rotary_stability :: number

text \<open>\<^verbatim>\<open>Object.values\<close> lists the values of the fields in the order of their creation.\<close>

definition Object_values :: "FMSInput \<Rightarrow> number list" where
  "Object_values scores =
     [deep_squat scores, hurdle_step scores, inline_lunge scores, shoulder_mobility scores,
      active_straight_leg_raise scores, trunk_stability_pushup scores,
      rotary_stability scores]"

definition calculateFMSTotal :: "FMSInput \<Rightarrow> number" where
  "calculateFMSTotal scores =
     foldl (\<lambda>sum score. js_add sum score) (Fin 0) (Object_values scores)"

record FMSRiskLevel =
  level :: string
  label :: string
  color :: string

definition getFMSRiskLevel :: "number \<Rightarrow> FMSRiskLevel" where
  "getFMSRiskLevel totalScore =
     (if js_ge totalScore (Fin 15) then
        \<lparr>level = ''low'', label = ''Low Risk'', color = ''text-green-600''\<rparr>
      else if js_ge totalScore (Fin 12) then
        \<lparr>level = ''moderate'', label = ''Moderate Risk'', color = ''text-yellow-600''\<rparr>
      else
        \<lparr>level = ''high'', label = ''High Risk'', color = ''text-red-600''\<rparr>)"

section \<open>The assessment wizard of \<^verbatim>\<open>app/clients/[id]/page.tsx\<close>\<close>

text \<open>
  The interface \<^verbatim>\<open>FMSScores\<close> of the types module: the seven sub-scores and the
  total.
\<close>

record FMSScores = FMSInput +
  total_score :: number

text \<open>
  The wizard keeps the seven sub-scores in the state variable \<^verbatim>\<open>fmsScores\<close>, which
  starts with every sub-score at 2.
\<close>

definition initial_fmsScores :: FMSInput where
  "initial_fmsScores =
     \<lparr>deep_squat = Fin 2, hurdle_step = Fin 2, inline_lunge = Fin 2,
      shoulder_mobility = Fin 2, active_straight_leg_raise = Fin 2,
      trunk_stability_pushup = Fin 2, rotary_stability = Fin 2\<rparr>"

text \<open>
  Each movement has four buttons, for the scores 0 to 3. A click runs
  \<^verbatim>\<open>setFmsScores({ ...fmsScores, [key]: score })\<close>, where \<^verbatim>\<open>key\<close> is one of the
  seven field names.
\<close>

datatype fms_key =
  Deep_squat | Hurdle_step | Inline_lunge | Shoulder_mobility
  | Active_straight_leg_raise | Trunk_stability_pushup | Rotary_stability

fun setFmsScores :: "fms_key \<Rightarrow> number \<Rightarrow> FMSInput \<Rightarrow> FMSInput" where
  "setFmsScores Deep_squat score fmsScores = fmsScores\<lparr>deep_squat := score\<rparr>"
| "setFmsScores Hurdle_step score fmsScores = fmsScores\<lparr>hurdle_step := score\<rparr>"
| "setFmsScores Inline_lunge score fmsScores = fmsScores\<lparr>inline_lunge := score\<rparr>"
| "setFmsScores Shoulder_mobility score fmsScores = fmsScores\<lparr>shoulder_mobility := score\<rparr>"
| "setFmsScores Active_straight_leg_raise score fmsScores =
     fmsScores\<lparr>active_straight_leg_raise := score\<rparr>"
| "setFmsScores Trunk_stability_pushup score fmsScores =
     fmsScores\<lparr>trunk_stability_pushup := score\<rparr>"
| "setFmsScores Rotary_stability score fmsScores = fmsScores\<lparr>rotary_stability := score\<rparr>"

text \<open>The values that \<^verbatim>\<open>fmsScores\<close> can hold: the initial one, changed by clicks.\<close>

inductive wizard_fmsScores :: "FMSInput \<Rightarrow> bool" where
  initial: "wizard_fmsScores initial_fmsScores"
| click: "wizard_fmsScores fmsScores \<Longrightarrow> score \<in> {Fin 0, Fin 1, Fin 2, Fin 3} \<Longrightarrow>
          wizard_fmsScores (setFmsScores key score fmsScores)"

text \<open>
  The FMS step shows the total in a colour and with a sentence, both chosen inline from
  \<^verbatim>\<open>calculateFMSTotal(fmsScores)\<close> with the cutoffs 14 and 12. The colour is the
  class name appended to \<^verbatim>\<open>text-2xl font-bold\<close>.
\<close>

definition fms_total_color :: "FMSInput \<Rightarrow> string" where
  "fms_total_color fmsScores =
     (if js_ge (calculateFMSTotal fmsScores) (Fin 14) then ''text-green-600''
      else if js_ge (calculateFMSTotal fmsScores) (Fin 12) then ''text-yellow-600''
      else ''text-red-600'')"

definition fms_risk_text :: "FMSInput \<Rightarrow> string" where
  "fms_risk_text fmsScores =
     (if js_ge (calculateFMSTotal fmsScores) (Fin 14) then ''Low injury risk''
      else if js_ge (calculateFMSTotal fmsScores) (Fin 12) then ''Moderate injury risk''
      else ''Higher injury risk - consider corrective exercises'')"

text \<open>
  \<^verbatim>\<open>handleSubmit\<close> throws \<^verbatim>\<open>Error("Not authenticated")\<close> when there is no
  session; its own \<^verbatim>\<open>catch\<close> shows the message, and nothing is posted. Otherwise it
  builds the object \<^verbatim>\<open>assessmentData\<close> and posts it. The model stops at the post:
  \<open>Inl\<close> is the error, \<open>Inr\<close> the field \<^verbatim>\<open>fms_scores\<close> of the posted object,
  \<^verbatim>\<open>{ ...fmsScores, total_score: calculateFMSTotal(fmsScores) }\<close>. The other fields
  of \<^verbatim>\<open>assessmentData\<close> are copies of the other state variables of the wizard.
\<close>

datatype js_error = Error string

definition handleSubmit :: "bool \<Rightarrow> FMSInput \<Rightarrow> js_error + FMSScores" where
  "handleSubmit session fmsScores =
     (if \<not> session then Inl (Error ''Not authenticated'')
      else Inr \<lparr>deep_squat = deep_squat fmsScores, hurdle_step = hurdle_step fmsScores,
                inline_lunge = inline_lunge fmsScores,
                shoulder_mobility = shoulder_mobility fmsScores,
                active_straight_leg_raise = active_straight_leg_raise fmsScores,
                trunk_stability_pushup = trunk_stability_pushup fmsScores,
                rotary_stability = rotary_stability fmsScores,
                total_score = calculateFMSTotal fmsScores\<rparr>)"

section \<open>Rounding\<close>

lemma bitlen_powi:
  fixes p :: int
  assumes "0 < p"
  shows "(2::rat) powi (bitlen p - 1) \<le> of_int p" and "of_int p < (2::rat) powi bitlen p"
proof -
  from bitlen_bounds [OF assms]
  have lo: "2 ^ nat (bitlen p - 1) \<le> p" and hi: "p < 2 ^ nat (bitlen p)" by simp_all
  have b1: "1 \<le> bitlen p" using assms bitlen_eq_zero_iff [of p] bitlen_nonneg [of p] by linarith
  have "(2::rat) powi (bitlen p - 1) = 2 ^ nat (bitlen p - 1)"
    using b1 by (simp add: power_int_def)
  also have "\<dots> = of_int (2 ^ nat (bitlen p - 1))" by simp
  also have "\<dots> \<le> of_int p" using lo by (simp only: of_int_le_iff)
  finally show "(2::rat) powi (bitlen p - 1) \<le> of_int p" .
  have "(of_int p :: rat) < of_int (2 ^ nat (bitlen p))" using hi by (simp only: of_int_less_iff)
  also have "\<dots> = 2 ^ nat (bitlen p)" by simp
  also have "\<dots> = 2 powi bitlen p" using b1 by (simp add: power_int_def)
  finally show "of_int p < (2::rat) powi bitlen p" .
qed

lemma ilog2_bounds:
  assumes "0 < x"
  shows "2 powi ilog2 x \<le> x" and "x < 2 powi (ilog2 x + 1)"
proof -
  obtain p q where pq: "quotient_of x = (p, q)" by (cases "quotient_of x")
  then have q: "0 < q" and x: "x = of_int p / of_int q"
    by (simp_all add: quotient_of_denom_pos quotient_of_div)
  from assms x q have p: "0 < p" by (simp add: zero_less_divide_iff)
  let ?d = "bitlen p - bitlen q"
  have qr: "(0::rat) < of_int q" using q by simp
  have pw: "(0::rat) < 2 powi k" for k by (rule zero_less_power_int) simp
  have pos1: "(0::rat) < of_int q * 2 powi (bitlen q - 1)" using qr pw by (rule mult_pos_pos)
  have pos2: "(0::rat) < 2 powi bitlen q * of_int q" using pw qr by (rule mult_pos_pos)
  have pr: "(0::rat) \<le> of_int p" using p by simp
  have "x < 2 powi bitlen p / of_int q"
    unfolding x using bitlen_powi(2) [OF p] qr by (simp add: divide_strict_right_mono)
  also have "\<dots> \<le> 2 powi bitlen p / 2 powi (bitlen q - 1)"
    using bitlen_powi(1) [OF q] pw [of "bitlen p"] pos1
    by (intro divide_left_mono) (simp_all only: less_imp_le)
  also have "\<dots> = 2 powi (bitlen p - (bitlen q - 1))"
    by (rule power_int_diff [symmetric]) simp
  also have "bitlen p - (bitlen q - 1) = ?d + 1" by simp
  finally have up: "x < 2 powi (?d + 1)" .
  have "?d - 1 = bitlen p - 1 - bitlen q" by simp
  then have "(2::rat) powi (?d - 1) = 2 powi (bitlen p - 1 - bitlen q)" by (rule arg_cong)
  also have "\<dots> = 2 powi (bitlen p - 1) / 2 powi bitlen q"
    by (rule power_int_diff) simp
  also have "\<dots> \<le> of_int p / 2 powi bitlen q"
    using bitlen_powi(1) [OF p] by (intro divide_right_mono) simp_all
  also have "\<dots> \<le> of_int p / of_int q"
    using bitlen_powi(2) [OF q] pr pos2
    by (intro divide_left_mono) (simp_all only: less_imp_le)
  finally have lo: "2 powi (?d - 1) \<le> x" by (simp only: x)
  have il: "ilog2 x = (if 2 powi ?d \<le> x then ?d else ?d - 1)"
    by (simp add: ilog2_def pq Let_def)
  show "2 powi ilog2 x \<le> x" using lo by (simp add: il)
  show "x < 2 powi (ilog2 x + 1)" using up by (auto simp add: il)
qed

lemma powi_less_cancel:
  assumes "(2::rat) powi a < 2 powi b"
  shows "a < b"
proof (rule ccontr)
  assume "\<not> a < b"
  then have "b \<le> a" by simp
  then have "(2::rat) powi b \<le> 2 powi a" by (rule power_int_increasing) simp
  with assms show False by simp
qed

lemma ilog2_unique:
  assumes "0 < x" and "2 powi e \<le> x" and "x < 2 powi (e + 1)"
  shows "ilog2 x = e"
proof -
  note b = ilog2_bounds [OF assms(1)]
  have "(2::rat) powi e < 2 powi (ilog2 x + 1)" using assms(2) b(2) by simp
  then have 1: "e < ilog2 x + 1"
    by (rule powi_less_cancel)
  have "(2::rat) powi ilog2 x < 2 powi (e + 1)" using assms(3) b(1) by simp
  then have 2: "ilog2 x < e + 1"
    by (rule powi_less_cancel)
  from 1 2 show ?thesis by simp
qed


lemma round_half_even_eq:
  assumes "\<bar>y - of_int n\<bar> < 1 / 2 \<or> (\<bar>y - of_int n\<bar> = 1 / 2 \<and> even n)"
  shows "round_half_even y = n"
proof (cases "of_int n \<le> y")
  case True
  with assms have "y < of_int n + 1" by linarith
  with True have f: "\<lfloor>y\<rfloor> = n" by (simp add: floor_unique)
  from assms True have "y - of_int n < 1 / 2 \<or> (y - of_int n = 1 / 2 \<and> even n)" by linarith
  then show ?thesis by (auto simp add: round_half_even_def Let_def f)
next
  case False
  with assms have "of_int (n - 1) \<le> y" "y < of_int (n - 1) + 1" by auto
  then have f: "\<lfloor>y\<rfloor> = n - 1" by (rule floor_unique)
  from assms False have "1 / 2 < y - of_int (n - 1) \<or> (y - of_int (n - 1) = 1 / 2 \<and> even n)"
    by auto
  then show ?thesis by (auto simp add: round_half_even_def Let_def f)
qed

lemma round_half_even_of_int: "round_half_even (of_int n) = n"
  by (rule round_half_even_eq) simp

lemma round_half_even_nonneg: "0 \<le> y \<Longrightarrow> 0 \<le> round_half_even y"
  by (auto simp add: round_half_even_def Let_def)

lemma round_half_even_minus_le: "\<bar>of_int (round_half_even y) - y\<bar> \<le> 1 / 2"
proof -
  have "of_int \<lfloor>y\<rfloor> \<le> y" "y < of_int \<lfloor>y\<rfloor> + 1" by linarith+
  then show ?thesis by (auto simp add: round_half_even_def Let_def)
qed

lemma binary64_0: "binary64 0 = Fin 0"
  by (simp add: binary64_def)

lemma binary64_minus: "binary64 (- x) = js_neg (binary64 x)"
  by (cases "x = 0"; cases "0 < x") (auto simp add: binary64_def Let_def)

lemma binary64_nonneg:
  assumes "0 \<le> x"
  shows "binary64 x = PosInf \<or> (\<exists>r. 0 \<le> r \<and> binary64 x = Fin r)"
proof (cases "x = 0")
  case True
  then show ?thesis by (simp add: binary64_0)
next
  case False
  with assms have x: "0 < x" by simp
  let ?u = "(2::rat) powi (max (ilog2 \<bar>x\<bar>) (- 1022) - 52)"
  have u: "0 < ?u" by (rule zero_less_power_int) simp
  with x have "0 \<le> \<bar>x\<bar> / ?u" by simp
  then have "0 \<le> round_half_even (\<bar>x\<bar> / ?u)" by (rule round_half_even_nonneg)
  with u have "0 \<le> of_int (round_half_even (\<bar>x\<bar> / ?u)) * ?u" by simp
  with x show ?thesis by (simp add: binary64_def Let_def)
qed

lemma binary64_exponent:
  assumes "0 < x" and "x < 2 powi (e + 1)" and "2 powi e \<le> x \<or> e = - 1022" and "- 1022 \<le> e"
  shows "max (ilog2 x) (- 1022) = e"
proof (cases "2 powi e \<le> x")
  case True
  with assms have "ilog2 x = e" by (intro ilog2_unique)
  with assms(4) show ?thesis by simp
next
  case False
  with assms have e: "e = - 1022" by simp
  have "(2::rat) powi ilog2 x < 2 powi (e + 1)"
    using ilog2_bounds(1) [OF assms(1)] assms(2) by simp
  then have "ilog2 x < e + 1"
    by (rule powi_less_cancel)
  moreover have "\<not> 2 powi (e + 1) \<le> x" using assms(2) by simp
  have "ilog2 x \<noteq> e"
    using False ilog2_bounds(1) [OF assms(1)] by auto
  ultimately show ?thesis using e by simp
qed

lemma binary64_eval:
  assumes "0 < x" and "x < (2::rat) powi (e + 1)" and "(2::rat) powi e \<le> x \<or> e = - 1022"
    and "- 1022 \<le> e"
    and "\<bar>x / (2::rat) powi (e - 52) - of_int n\<bar> < 1 / 2
         \<or> (\<bar>x / (2::rat) powi (e - 52) - of_int n\<bar> = 1 / 2 \<and> even n)"
    and "of_int n * (2::rat) powi (e - 52) < 2 powi 1024"
  shows "binary64 x = Fin (of_int n * 2 powi (e - 52))"
proof -
  have ax: "\<bar>x\<bar> = x" using assms(1) by simp
  have e: "max (ilog2 x) (- 1022) = e"
    using assms(1-4) by (rule binary64_exponent)
  have n: "round_half_even (x / 2 powi (e - 52)) = n"
    using assms(5) by (rule round_half_even_eq)
  have "binary64 x =
     (if x = 0 then Fin 0
      else if (2::rat) powi 1024 \<le> of_int n * 2 powi (e - 52)
        then (if 0 < x then PosInf else NegInf)
        else Fin (if 0 < x then of_int n * 2 powi (e - 52) else - (of_int n * 2 powi (e - 52))))"
    unfolding binary64_def Let_def ax e n ..
  also have "\<dots> = Fin (of_int n * 2 powi (e - 52))"
  proof -
    have nz: "(x = 0) = False" using assms(1) by simp
    have px: "(0 < x) = True" using assms(1) by simp
    have nle: "((2::rat) powi 1024 \<le> of_int n * 2 powi (e - 52)) = False"
      using assms(6) by (simp only: not_le [symmetric])
    show ?thesis by (simp only: nz px nle if_False if_True)
  qed
  finally show ?thesis .
qed

lemma binary64_of_int:
  assumes "\<bar>m\<bar> < 2 ^ 53"
  shows "binary64 (of_int m) = Fin (of_int m)"
proof -
  have pos: "binary64 (of_int k) = Fin (of_int k)" if k: "0 < k" "k < 2 ^ 53" for k :: int
  proof -
    let ?x = "of_int k :: rat"
    let ?e = "ilog2 ?x"
    have x: "0 < ?x" using k by simp
    note b = ilog2_bounds [OF x]
    have "?x < 2 powi 53" using k(2) by (metis of_int_less_iff of_int_numeral of_int_power power_int_numeral)
    with b(1) have "(2::rat) powi ?e < 2 powi 53" by simp
    then have e53: "?e < 53"
      by (rule powi_less_cancel)
    have "(1::rat) \<le> ?x" using k(1) by (metis int_one_le_iff_zero_less of_int_1_le_iff)
    with b(2) have "(2::rat) powi 0 < 2 powi (?e + 1)" by simp
    then have "0 < ?e + 1" by (rule powi_less_cancel)
    then have e0: "0 \<le> ?e" by simp
    define j where "j = nat (52 - ?e)"
    have u: "(2::rat) powi (?e - 52) = 1 / 2 ^ j"
      using e53 by (simp add: j_def power_int_def inverse_eq_divide power_one_over)
    have div: "?x / 2 powi (?e - 52) = of_int (k * 2 ^ j)" by (simp add: u)
    have "binary64 ?x = Fin (of_int (k * 2 ^ j) * 2 powi (?e - 52))"
    proof (rule binary64_eval)
      show "0 < ?x" by (rule x)
      show "?x < 2 powi (?e + 1)" by (rule b(2))
      show "2 powi ?e \<le> ?x \<or> ?e = - 1022" using b(1) by simp
      show "- 1022 \<le> ?e" using e0 by simp
      show "\<bar>?x / 2 powi (?e - 52) - of_int (k * 2 ^ j)\<bar> < 1 / 2
         \<or> (\<bar>?x / 2 powi (?e - 52) - of_int (k * 2 ^ j)\<bar> = 1 / 2 \<and> even (k * 2 ^ j))"
        by (simp only: div) simp
      have "of_int (k * 2 ^ j) * (2::rat) powi (?e - 52) = ?x" by (simp add: u)
      also have "\<dots> < 2 powi 53" by fact
      also have "(2::rat) powi 53 \<le> 2 powi 1024" by (rule power_int_increasing) simp_all
      finally show "of_int (k * 2 ^ j) * (2::rat) powi (?e - 52) < 2 powi 1024" .
    qed
    also have "of_int (k * 2 ^ j) * (2::rat) powi (?e - 52) = ?x" by (simp add: u)
    finally show ?thesis .
  qed
  consider "m = 0" | "0 < m" | "m < 0" by linarith
  then show ?thesis
  proof cases
    case 1
    then show ?thesis by (simp add: binary64_0)
  next
    case 2
    with assms show ?thesis by (intro pos) simp_all
  next
    case 3
    with assms have "binary64 (of_int (- m)) = Fin (of_int (- m))" by (intro pos) simp_all
    then have "js_neg (binary64 (of_int m)) = Fin (- of_int m)"
      by (simp add: binary64_minus)
    then show ?thesis by (cases "binary64 (of_int m)") simp_all
  qed
qed

section \<open>Evaluating the operations\<close>

lemma toFixed1_eval:
  assumes "0 \<le> x" and "x < 10 ^ 21"
    and "of_nat n \<le> x * 10 + 1 / 2" and "x * 10 + 1 / 2 < of_nat n + 1"
  shows "toFixed1 (Fin x) = Fixed False n"
proof -
  have "\<lfloor>x * 10 + 1 / 2\<rfloor> = int n"
    using assms(3,4) by (intro floor_unique) simp_all
  with assms(1,2) show ?thesis by simp
qed

lemma toFixed1_nearest_tenth:
  fixes x :: rat
  assumes "0 \<le> x" and "x < 10 ^ 21"
  shows "\<exists>n::nat. Number_of (toFixed1 (Fin x)) = binary64 (of_nat n / 10)
           \<and> x - 1 / 20 < of_nat n / 10 \<and> of_nat n / 10 \<le> x + 1 / 20"
proof -
  let ?z = "\<lfloor>x * 10 + 1 / 2\<rfloor>"
  have z0: "0 \<le> ?z" using assms(1) by simp
  have eq: "(of_nat (nat ?z) :: rat) = of_int ?z" using z0 by simp
  have le: "of_int ?z \<le> x * 10 + 1 / 2" by (rule of_int_floor_le)
  have gt: "x * 10 + 1 / 2 < of_int ?z + 1" by linarith
  have "Number_of (toFixed1 (Fin x)) = binary64 (of_nat (nat ?z) / 10)"
    using assms by simp
  moreover have "x - 1 / 20 < of_nat (nat ?z) / 10" using gt eq by simp
  moreover have "of_nat (nat ?z) / 10 \<le> x + 1 / 20" using le eq by simp
  ultimately show ?thesis by blast
qed

lemma toFixed1_large:
  fixes x :: rat
  assumes "10 ^ 21 \<le> x"
  shows "Number_of (toFixed1 (Fin x)) = Fin x"
  using assms by simp

lemma js_div_neg:
  assumes "0 < b"
  shows "js_div (js_neg a) (Fin b) = js_neg (js_div a (Fin b))"
  using assms by (cases a) (simp_all add: binary64_minus [symmetric])

lemma js_mul_neg_neg: "js_mul (js_neg a) (js_neg a) = js_mul a a"
  by (cases a) simp_all

lemma calculateBMI_neg: "calculateBMI w (js_neg h) = calculateBMI w h"
  by (simp add: calculateBMI_def Let_def js_div_neg js_mul_neg_neg)

lemma calculateBMI_zero:
  "calculateBMI w (Fin 0) =
     (case w of
        Fin x \<Rightarrow> if 0 < x then PosInf else if x < 0 then NegInf else NaN
      | PosInf \<Rightarrow> PosInf
      | NegInf \<Rightarrow> NegInf
      | NaN \<Rightarrow> NaN)"
  by (cases w) (simp_all add: calculateBMI_def Let_def binary64_0)

lemma square_nonneg:
  assumes "X = PosInf \<or> (\<exists>r. 0 \<le> r \<and> X = Fin r)"
  shows "js_mul X X = PosInf \<or> (\<exists>s. 0 \<le> s \<and> js_mul X X = Fin s)"
proof -
  from assms consider "X = PosInf" | r where "0 \<le> r" "X = Fin r" by blast
  then show ?thesis
  proof cases
    case 1
    then show ?thesis by simp
  next
    case 2
    then have "0 \<le> r * r" by simp
    from binary64_nonneg [OF this] 2 show ?thesis by simp
  qed
qed

lemma quotient_nonneg:
  assumes "0 < w" and "S = PosInf \<or> (\<exists>s. 0 \<le> s \<and> S = Fin s)"
  shows "js_div (Fin w) S = PosInf \<or> (\<exists>x. 0 \<le> x \<and> js_div (Fin w) S = Fin x)"
proof -
  from assms(2) consider "S = PosInf" | "S = Fin 0" | s where "0 < s" "S = Fin s"
    by (metis order_le_less)
  then show ?thesis
  proof cases
    case 1
    then show ?thesis by simp
  next
    case 2
    with assms(1) show ?thesis by simp
  next
    case 3
    with assms(1) have "0 \<le> w / s" by simp
    from binary64_nonneg [OF this] 3 show ?thesis by simp
  qed
qed

lemma js_add_int:
  assumes "\<bar>a + b\<bar> < 2 ^ 53"
  shows "js_add (Fin (of_int a)) (Fin (of_int b)) = Fin (of_int (a + b))"
proof -
  have "js_add (Fin (of_int a)) (Fin (of_int b)) = binary64 (of_int (a + b))" by simp
  also have "\<dots> = Fin (of_int (a + b))" using assms by (rule binary64_of_int)
  finally show ?thesis .
qed

lemma calculateFMSTotal_fields:
  fixes a b c d e f g :: int
  assumes "deep_squat s = Fin (of_int a)" and "hurdle_step s = Fin (of_int b)"
    and "inline_lunge s = Fin (of_int c)" and "shoulder_mobility s = Fin (of_int d)"
    and "active_straight_leg_raise s = Fin (of_int e)"
    and "trunk_stability_pushup s = Fin (of_int f)" and "rotary_stability s = Fin (of_int g)"
    and "list_all (\<lambda>x. \<bar>x\<bar> \<le> 2 ^ 49) [a, b, c, d, e, f, g]"
  shows "calculateFMSTotal s = Fin (of_int (a + b + c + d + e + f + g))"
proof -
  from assms(8) have r: "\<bar>a\<bar> \<le> 2 ^ 49" "\<bar>b\<bar> \<le> 2 ^ 49" "\<bar>c\<bar> \<le> 2 ^ 49" "\<bar>d\<bar> \<le> 2 ^ 49"
    "\<bar>e\<bar> \<le> 2 ^ 49" "\<bar>f\<bar> \<le> 2 ^ 49" "\<bar>g\<bar> \<le> 2 ^ 49" by simp_all
  have 1: "js_add (Fin 0) (Fin (of_int a)) = Fin (of_int a)"
    using js_add_int [of 0 a] r by simp
  have 2: "js_add (Fin (of_int a)) (Fin (of_int b)) = Fin (of_int (a + b))"
    using r by (intro js_add_int) simp
  have 3: "js_add (Fin (of_int (a + b))) (Fin (of_int c)) = Fin (of_int (a + b + c))"
    using r by (intro js_add_int) simp
  have 4: "js_add (Fin (of_int (a + b + c))) (Fin (of_int d)) = Fin (of_int (a + b + c + d))"
    using r by (intro js_add_int) simp
  have 5: "js_add (Fin (of_int (a + b + c + d))) (Fin (of_int e))
           = Fin (of_int (a + b + c + d + e))"
    using r by (intro js_add_int) simp
  have 6: "js_add (Fin (of_int (a + b + c + d + e))) (Fin (of_int f))
           = Fin (of_int (a + b + c + d + e + f))"
    using r by (intro js_add_int) simp
  have 7: "js_add (Fin (of_int (a + b + c + d + e + f))) (Fin (of_int g))
           = Fin (of_int (a + b + c + d + e + f + g))"
    using r by (intro js_add_int) simp
  show ?thesis
    by (simp only: calculateFMSTotal_def Object_values_def foldl.simps assms(1-7) 1 2 3 4 5 6 7)
qed

lemma calculateFMSTotal_int:
  fixes a b c d e f g :: int
  assumes "list_all (\<lambda>x. \<bar>x\<bar> \<le> 2 ^ 49) [a, b, c, d, e, f, g]"
  shows "calculateFMSTotal
     \<lparr>deep_squat = Fin (of_int a), hurdle_step = Fin (of_int b), inline_lunge = Fin (of_int c),
      shoulder_mobility = Fin (of_int d), active_straight_leg_raise = Fin (of_int e),
      trunk_stability_pushup = Fin (of_int f), rotary_stability = Fin (of_int g)\<rparr>
   = Fin (of_int (a + b + c + d + e + f + g))"
  using assms by (intro calculateFMSTotal_fields) simp_all

lemma calculateFMSTotal_initial: "calculateFMSTotal initial_fmsScores = Fin 14"
  using calculateFMSTotal_int [of 2 2 2 2 2 2 2] by (simp add: initial_fmsScores_def)

lemma calculateBMI_70_170:
  "calculateBMI (Fin 70) (Fin 170) = binary64 (242 / 10)"
proof -
  have 1: "js_div (Fin 170) (Fin 100) = Fin (7656119366529843 / 4503599627370496)"
    using binary64_eval [of "170 / 100" "0" 7656119366529843] by simp
  have 2: "js_mul (Fin (7656119366529843 / 4503599627370496)) (Fin (7656119366529843 / 4503599627370496)) = Fin (3253850730775183 / 1125899906842624)"
    using binary64_eval [of "(7656119366529843 / 4503599627370496) * (7656119366529843 / 4503599627370496)" "1" 6507701461550366] by simp
  have 3: "js_div (Fin 70) (Fin (3253850730775183 / 1125899906842624)) = Fin (1704433249978021 / 70368744177664)"
    using binary64_eval [of "70 / (3253850730775183 / 1125899906842624)" "4" 6817732999912084] by simp
  have 4: "toFixed1 (Fin (1704433249978021 / 70368744177664)) = Fixed False 242"
    using toFixed1_eval [of "1704433249978021 / 70368744177664" 242] by simp
  have 5: "Number_of (Fixed False 242) = binary64 (242 / 10)"
    by simp
  show ?thesis
    by (simp only: calculateBMI_def Let_def 1 2 3 4 5)
qed

lemma calculateBMI_80_160:
  "calculateBMI (Fin 80) (Fin 160) = binary64 (312 / 10)"
proof -
  have 1: "js_div (Fin 160) (Fin 100) = Fin (3602879701896397 / 2251799813685248)"
    using binary64_eval [of "160 / 100" "0" 7205759403792794] by simp
  have 2: "js_mul (Fin (3602879701896397 / 2251799813685248)) (Fin (3602879701896397 / 2251799813685248)) = Fin (1441151880758559 / 562949953421312)"
    using binary64_eval [of "(3602879701896397 / 2251799813685248) * (3602879701896397 / 2251799813685248)" "1" 5764607523034236] by simp
  have 3: "js_div (Fin 80) (Fin (1441151880758559 / 562949953421312)) = Fin (4398046511103999 / 140737488355328)"
    using binary64_eval [of "80 / (1441151880758559 / 562949953421312)" "4" 8796093022207998] by simp
  have 4: "toFixed1 (Fin (4398046511103999 / 140737488355328)) = Fixed False 312"
    using toFixed1_eval [of "4398046511103999 / 140737488355328" 312] by simp
  have 5: "Number_of (Fixed False 312) = binary64 (312 / 10)"
    by simp
  show ?thesis
    by (simp only: calculateBMI_def Let_def 1 2 3 4 5)
qed

lemma binary64_tenths:
  "binary64 (242 / 10) = Fin (6811694436397875 / 281474976710656)"
  "binary64 (312 / 10) = Fin (8782019273372467 / 281474976710656)"
  "binary64 (313 / 10) = Fin (8810166771043533 / 281474976710656)"
  using binary64_eval [of "242 / 10" "4" 6811694436397875] binary64_eval [of "312 / 10" "4" 8782019273372467]
    binary64_eval [of "313 / 10" "4" 8810166771043533]
  by simp_all

lemma calculateBMI_underflow:
  "calculateBMI (Fin 70) (Fin (1 / 2 ^ 600)) = PosInf"
proof -
  have 1: "js_div (Fin (1 / 2 ^ 600)) (Fin 100) = Fin (5764607523034235 / 2392032866531905486790942578809394338145620987608332988883503686824375178865503049616412016019962016447144819201720664620106359620960485637227891297994520232330261783830994590149049944504587400511488)"
    using binary64_eval [of "1 / 2 ^ 600 / 100" "-607" 5764607523034235] by simp
  have 2: "js_mul (Fin (5764607523034235 / 2392032866531905486790942578809394338145620987608332988883503686824375178865503049616412016019962016447144819201720664620106359620960485637227891297994520232330261783830994590149049944504587400511488)) (Fin (5764607523034235 / 2392032866531905486790942578809394338145620987608332988883503686824375178865503049616412016019962016447144819201720664620106359620960485637227891297994520232330261783830994590149049944504587400511488)) = Fin 0"
    using binary64_eval [of "(5764607523034235 / 2392032866531905486790942578809394338145620987608332988883503686824375178865503049616412016019962016447144819201720664620106359620960485637227891297994520232330261783830994590149049944504587400511488) * (5764607523034235 / 2392032866531905486790942578809394338145620987608332988883503686824375178865503049616412016019962016447144819201720664620106359620960485637227891297994520232330261783830994590149049944504587400511488)" "- 1022" 0] by simp
  have 3: "js_div (Fin 70) (Fin 0) = PosInf"
    by simp
  show ?thesis
    by (simp only: calculateBMI_def Let_def 1 2 3 toFixed1.simps Number_of.simps)
qed

lemma binary64_67_2: "binary64 (672 / 10) = Fin (4728779608739021 / 70368744177664)"
  using binary64_eval [of "672 / 10" "6" 4728779608739021] by simp

lemma binary64_26_2: "binary64 (262 / 10) = Fin (7374644389819187 / 281474976710656)"
  using binary64_eval [of "262 / 10" "4" 7374644389819187] by simp

lemma calculateBMI_67_2_160:
  "calculateBMI (Fin (4728779608739021 / 70368744177664)) (Fin 160) = binary64 (262 / 10)"
proof -
  have 1: "js_div (Fin 160) (Fin 100) = Fin (3602879701896397 / 2251799813685248)"
    using binary64_eval [of "160 / 100" "0" 7205759403792794] by simp
  have 2: "js_mul (Fin (3602879701896397 / 2251799813685248)) (Fin (3602879701896397 / 2251799813685248)) = Fin (1441151880758559 / 562949953421312)"
    using binary64_eval [of "(3602879701896397 / 2251799813685248) * (3602879701896397 / 2251799813685248)" "1" 5764607523034236] by simp
  have 3: "js_div (Fin (4728779608739021 / 70368744177664)) (Fin (1441151880758559 / 562949953421312)) = Fin (7388718138654719 / 281474976710656)"
    using binary64_eval [of "(4728779608739021 / 70368744177664) / (1441151880758559 / 562949953421312)" "4" 7388718138654719] by simp
  have 4: "toFixed1 (Fin (7388718138654719 / 281474976710656)) = Fixed False 262"
    using toFixed1_eval [of "7388718138654719 / 281474976710656" 262] by simp
  have 5: "Number_of (Fixed False 262) = binary64 (262 / 10)"
    by simp
  show ?thesis
    by (simp only: calculateBMI_def Let_def 1 2 3 4 5)
qed

lemma level_cases: "level (getFMSRiskLevel v) \<in> {''low'', ''moderate'', ''high''}"
  by (simp add: getFMSRiskLevel_def)

lemma subscore_int:
  assumes "x \<in> {Fin 0, Fin 1, Fin 2, Fin 3}"
  shows "\<exists>k::int. 0 \<le> k \<and> k \<le> 3 \<and> x = Fin (of_int k)"
proof -
  from assms consider "x = Fin 0" | "x = Fin 1" | "x = Fin 2" | "x = Fin 3" by blast
  then show ?thesis
  proof cases
    case 1 then show ?thesis by (intro exI [of _ 0]) simp
  next
    case 2 then show ?thesis by (intro exI [of _ 1]) simp
  next
    case 3 then show ?thesis by (intro exI [of _ 2]) simp
  next
    case 4 then show ?thesis by (intro exI [of _ 3]) simp
  qed
qed

lemma wizard_fmsScores_range:
  assumes "wizard_fmsScores s"
  shows "\<forall>x \<in> set (Object_values s). x \<in> {Fin 0, Fin 1, Fin 2, Fin 3}"
  using assms
proof (induction rule: wizard_fmsScores.induct)
  case initial
  show ?case by (simp add: initial_fmsScores_def Object_values_def)
next
  case (click fmsScores score key)
  then show ?case by (cases key) (simp_all add: Object_values_def)
qed

lemma wizard_fmsScores_total:
  assumes "wizard_fmsScores s"
  shows "\<exists>n::int. 0 \<le> n \<and> n \<le> 21 \<and> calculateFMSTotal s = Fin (of_int n)"
proof -
  from wizard_fmsScores_range [OF assms]
  have r: "deep_squat s \<in> {Fin 0, Fin 1, Fin 2, Fin 3}"
    "hurdle_step s \<in> {Fin 0, Fin 1, Fin 2, Fin 3}"
    "inline_lunge s \<in> {Fin 0, Fin 1, Fin 2, Fin 3}"
    "shoulder_mobility s \<in> {Fin 0, Fin 1, Fin 2, Fin 3}"
    "active_straight_leg_raise s \<in> {Fin 0, Fin 1, Fin 2, Fin 3}"
    "trunk_stability_pushup s \<in> {Fin 0, Fin 1, Fin 2, Fin 3}"
    "rotary_stability s \<in> {Fin 0, Fin 1, Fin 2, Fin 3}"
    by (simp_all add: Object_values_def)
  from subscore_int [OF r(1)] obtain a :: int
    where a: "0 \<le> a" "a \<le> 3" "deep_squat s = Fin (of_int a)" by blast
  from subscore_int [OF r(2)] obtain b :: int
    where b: "0 \<le> b" "b \<le> 3" "hurdle_step s = Fin (of_int b)" by blast
  from subscore_int [OF r(3)] obtain c :: int
    where c: "0 \<le> c" "c \<le> 3" "inline_lunge s = Fin (of_int c)" by blast
  from subscore_int [OF r(4)] obtain d :: int
    where d: "0 \<le> d" "d \<le> 3" "shoulder_mobility s = Fin (of_int d)" by blast
  from subscore_int [OF r(5)] obtain e :: int
    where e: "0 \<le> e" "e \<le> 3" "active_straight_leg_raise s = Fin (of_int e)" by blast
  from subscore_int [OF r(6)] obtain f :: int
    where f: "0 \<le> f" "f \<le> 3" "trunk_stability_pushup s = Fin (of_int f)" by blast
  from subscore_int [OF r(7)] obtain g :: int
    where g: "0 \<le> g" "g \<le> 3" "rotary_stability s = Fin (of_int g)" by blast
  have "list_all (\<lambda>x. \<bar>x\<bar> \<le> 2 ^ 49) [a, b, c, d, e, f, g]"
    using a b c d e f g by simp
  with a(3) b(3) c(3) d(3) e(3) f(3) g(3)
  have "calculateFMSTotal s = Fin (of_int (a + b + c + d + e + f + g))"
    by (rule calculateFMSTotal_fields)
  moreover have "0 \<le> a + b + c + d + e + f + g" "a + b + c + d + e + f + g \<le> 21"
    using a b c d e f g by simp_all
  ultimately show ?thesis by blast
qed

section \<open>Risk classification\<close>

text \<open>
  C1. For every integer total from 0 to 21, \<^verbatim>\<open>getFMSRiskLevel\<close> returns the level
  \<^verbatim>\<open>low\<close> when the total is at least 15, \<^verbatim>\<open>moderate\<close> when it is at least 12 and
  below 15, and \<^verbatim>\<open>high\<close> when it is below 12; it maps 21 and 15 to \<^verbatim>\<open>low\<close>, 12 to
  \<^verbatim>\<open>moderate\<close> and 11 to \<^verbatim>\<open>high\<close>.
\<close>

theorem getFMSRiskLevel_bands:
  fixes t :: int
  assumes "0 \<le> t" and "t \<le> 21"
  shows "level (getFMSRiskLevel (Fin (of_int t))) =
           (if 15 \<le> t then ''low'' else if 12 \<le> t then ''moderate'' else ''high'')
         \<and> level (getFMSRiskLevel (Fin 21)) = ''low''
         \<and> level (getFMSRiskLevel (Fin 15)) = ''low''
         \<and> level (getFMSRiskLevel (Fin 12)) = ''moderate''
         \<and> level (getFMSRiskLevel (Fin 11)) = ''high''"
  by (simp add: getFMSRiskLevel_def)

theorem getFMSRiskLevel_bands_witness:
  "(0::int) \<le> 14 \<and> (14::int) \<le> 21
   \<and> level (getFMSRiskLevel (Fin (of_int (14::int)))) = ''moderate''"
  using getFMSRiskLevel_bands [of 14] by simp

text \<open>
  C7. For every total that \<^verbatim>\<open>calculateFMSTotal\<close> produces from seven sub-scores in
  the integer range 0 to 3, that is for every integer from 0 to 21,
  \<^verbatim>\<open>getFMSRiskLevel\<close> returns a value, whose level is one of \<^verbatim>\<open>low\<close>,
  \<^verbatim>\<open>moderate\<close> and \<^verbatim>\<open>high\<close>.
\<close>

theorem getFMSRiskLevel_total:
  fixes a b c d e f g :: int
  assumes "list_all (\<lambda>x. 0 \<le> x \<and> x \<le> 3) [a, b, c, d, e, f, g]"
  shows "level (getFMSRiskLevel (calculateFMSTotal
           \<lparr>deep_squat = Fin (of_int a), hurdle_step = Fin (of_int b),
            inline_lunge = Fin (of_int c), shoulder_mobility = Fin (of_int d),
            active_straight_leg_raise = Fin (of_int e),
            trunk_stability_pushup = Fin (of_int f), rotary_stability = Fin (of_int g)\<rparr>))
           \<in> {''low'', ''moderate'', ''high''}
         \<and> (\<forall>t \<in> {0 .. 21 :: int}.
               level (getFMSRiskLevel (Fin (of_int t))) \<in> {''low'', ''moderate'', ''high''})"
  using level_cases by blast

theorem getFMSRiskLevel_total_witness:
  "list_all (\<lambda>x. 0 \<le> x \<and> x \<le> 3) [3, 0, 1, 2, 3, 3, 1 :: int] \<and>
   level (getFMSRiskLevel (calculateFMSTotal
     \<lparr>deep_squat = Fin (of_int 3), hurdle_step = Fin (of_int 0),
      inline_lunge = Fin (of_int 1), shoulder_mobility = Fin (of_int 2),
      active_straight_leg_raise = Fin (of_int 3),
      trunk_stability_pushup = Fin (of_int 3), rotary_stability = Fin (of_int 1)\<rparr>))
     \<in> {''low'', ''moderate'', ''high''}
   \<and> level (getFMSRiskLevel (Fin (of_int (21 :: int)))) \<in> {''low'', ''moderate'', ''high''}"
proof -
  have h: "list_all (\<lambda>x. 0 \<le> x \<and> x \<le> 3) [3, 0, 1, 2, 3, 3, 1 :: int]" by simp
  note T = getFMSRiskLevel_total [OF h]
  have m: "(21 :: int) \<in> {0 .. 21}" by simp
  from T have "level (getFMSRiskLevel (Fin (of_int (21 :: int)))) \<in> {''low'', ''moderate'', ''high''}"
    using m by blast
  with T h show ?thesis by blast
qed

section \<open>Body mass index\<close>

text \<open>
  C4, as stated, says that \<^verbatim>\<open>calculateBMI\<close> returns the quotient
  \<open>weightKg / (heightCm / 100)\<^sup>2\<close> rounded to one decimal place, for every positive
  weight and height. The function rounds the quotient that binary64 arithmetic computes,
  which is not always the quotient.
  \<^item> At weight 80 and height 160 the quotient is 31.25. The square of 1.6 is computed
    as a value above 2.56, the computed quotient lies below 31.25, and the result is
    31.2, where \<^verbatim>\<open>toFixed\<close> on 31.25 gives 31.3.
  \<^item> At weight 67.2 (the binary64 value of that literal) and height 160 the quotient
    lies above 26.25, and the result is 26.2, more than a twentieth away from it.
  \<^item> At weight 70 and height \<open>2^-600\<close> the square underflows to zero and the result is
    \<^verbatim>\<open>Infinity\<close>.
\<close>

theorem calculateBMI_one_decimal_counterexample:
  "calculateBMI (Fin 80) (Fin 160) = binary64 (312 / 10)
   \<and> (80 :: rat) / (160 / 100)\<^sup>2 = 3125 / 100
   \<and> binary64 (312 / 10) \<noteq> binary64 (313 / 10)
   \<and> binary64 (672 / 10) = Fin (4728779608739021 / 70368744177664)
   \<and> calculateBMI (Fin (4728779608739021 / 70368744177664)) (Fin 160) = binary64 (262 / 10)
   \<and> binary64 (262 / 10) = Fin (7374644389819187 / 281474976710656)
   \<and> (1 :: rat) / 20 <
       (4728779608739021 / 70368744177664) / (160 / 100)\<^sup>2
         - 7374644389819187 / 281474976710656
   \<and> calculateBMI (Fin 70) (Fin (1 / 2 ^ 600)) = PosInf"
proof -
  have "binary64 (312 / 10) \<noteq> binary64 (313 / 10)"
    by (simp only: binary64_tenths) simp
  moreover have "(80 :: rat) / (160 / 100)\<^sup>2 = 3125 / 100"
    by (simp add: power2_eq_square)
  moreover have "(1 :: rat) / 20 <
       (4728779608739021 / 70368744177664) / (160 / 100)\<^sup>2
         - 7374644389819187 / 281474976710656"
    by (simp add: power2_eq_square)
  ultimately show ?thesis
    using calculateBMI_80_160 binary64_67_2 calculateBMI_67_2_160 binary64_26_2
      calculateBMI_underflow
    by (intro conjI)
qed

text \<open>
  C4, amended. For every positive weight and height, \<^verbatim>\<open>calculateBMI\<close> rounds to one
  decimal place the quotient as binary64 arithmetic computes it, from the height divided
  by 100, its square and the division, each rounded. When that computed quotient is
  \<^verbatim>\<open>Infinity\<close>, so is the result. When it is a finite \<open>x\<close> below \<open>10^21\<close>, the result
  is the binary64 value of a decimal \<open>n / 10\<close> within a twentieth of \<open>x\<close>, a tie going
  up. From \<open>10^21\<close> on the result is \<open>x\<close> itself. In particular
  \<^verbatim>\<open>calculateBMI(70, 170)\<close> is 24.2.
\<close>

theorem calculateBMI_one_decimal:
  fixes w h :: rat
  assumes "0 < w" and "0 < h"
  shows "(let q = js_div (Fin w)
                   (js_mul (js_div (Fin h) (Fin 100)) (js_div (Fin h) (Fin 100)))
          in (q = PosInf \<and> calculateBMI (Fin w) (Fin h) = PosInf)
             \<or> (\<exists>x. q = Fin x \<and> 0 \<le> x \<and> x < 10 ^ 21
                   \<and> (\<exists>n::nat. x - 1 / 20 < of_nat n / 10 \<and> of_nat n / 10 \<le> x + 1 / 20
                         \<and> calculateBMI (Fin w) (Fin h) = binary64 (of_nat n / 10)))
             \<or> (\<exists>x. q = Fin x \<and> 10 ^ 21 \<le> x \<and> calculateBMI (Fin w) (Fin h) = Fin x))
         \<and> calculateBMI (Fin 70) (Fin 170) = binary64 (242 / 10)"
proof -
  define hM where "hM = js_div (Fin h) (Fin 100)"
  define q where "q = js_div (Fin w) (js_mul hM hM)"
  have bmi: "calculateBMI (Fin w) (Fin h) = Number_of (toFixed1 q)"
    by (simp only: calculateBMI_def Let_def hM_def q_def)
  have "0 \<le> h / 100" using assms(2) by simp
  from binary64_nonneg [OF this]
  have "hM = PosInf \<or> (\<exists>r. 0 \<le> r \<and> hM = Fin r)" by (simp add: hM_def)
  then have "js_mul hM hM = PosInf \<or> (\<exists>s. 0 \<le> s \<and> js_mul hM hM = Fin s)"
    by (rule square_nonneg)
  with assms(1) have "q = PosInf \<or> (\<exists>x. 0 \<le> x \<and> q = Fin x)"
    unfolding q_def by (rule quotient_nonneg)
  then consider "q = PosInf" | x where "0 \<le> x" "x < 10 ^ 21" "q = Fin x"
    | x where "10 ^ 21 \<le> x" "q = Fin x"
    by (metis linorder_not_less)
  then have "(q = PosInf \<and> calculateBMI (Fin w) (Fin h) = PosInf)
             \<or> (\<exists>x. q = Fin x \<and> 0 \<le> x \<and> x < 10 ^ 21
                   \<and> (\<exists>n::nat. x - 1 / 20 < of_nat n / 10 \<and> of_nat n / 10 \<le> x + 1 / 20
                         \<and> calculateBMI (Fin w) (Fin h) = binary64 (of_nat n / 10)))
             \<or> (\<exists>x. q = Fin x \<and> 10 ^ 21 \<le> x \<and> calculateBMI (Fin w) (Fin h) = Fin x)"
  proof cases
    case 1
    then show ?thesis by (simp add: bmi)
  next
    case 2
    from toFixed1_nearest_tenth [OF 2(1,2)] obtain n :: nat
      where "Number_of (toFixed1 (Fin x)) = binary64 (of_nat n / 10)"
        and "x - 1 / 20 < of_nat n / 10" and "of_nat n / 10 \<le> x + 1 / 20"
      by blast
    with 2 bmi show ?thesis by (metis number.inject)
  next
    case 3
    from toFixed1_large [OF 3(1)] 3 bmi show ?thesis by metis
  qed
  then show ?thesis
    using calculateBMI_70_170 by (simp only: Let_def hM_def q_def) 
qed

theorem calculateBMI_one_decimal_witness:
  "(0::rat) < 70 \<and> (0::rat) < 170
   \<and> calculateBMI (Fin 70) (Fin 170) = Fin (6811694436397875 / 281474976710656)"
proof -
  have w: "(0::rat) < 70" and h: "(0::rat) < 170" by simp_all
  from calculateBMI_one_decimal [OF w h]
  have "calculateBMI (Fin 70) (Fin 170) = binary64 (242 / 10)" by (rule conjunct2)
  with w h show ?thesis by (simp only: binary64_tenths simp_thms)
qed

text \<open>
  C2, as stated, asks for an \<^verbatim>\<open>InvalidMeasurement\<close> error at a height that is not
  positive. The function has no check of its arguments: at weight 70 and height 0 it
  returns \<^verbatim>\<open>Infinity\<close>.
\<close>

theorem calculateBMI_zero_height_counterexample:
  "calculateBMI (Fin 70) (Fin 0) = PosInf"
  by (simp add: calculateBMI_zero)

text \<open>
  C2, amended. For every weight and every height that is not positive,
  \<^verbatim>\<open>calculateBMI\<close> raises no error and returns a number. At height 0 that number is
  \<^verbatim>\<open>Infinity\<close> for a positive weight, \<^verbatim>\<open>-Infinity\<close> for a negative weight and
  \<^verbatim>\<open>NaN\<close> for weight 0; a weight that is not finite is returned as it is. At a
  negative height it is the number returned at the positive height of the same
  magnitude.
\<close>

theorem calculateBMI_nonpositive_height:
  fixes h :: rat
  assumes "h \<le> 0"
  shows "(h = 0 \<longrightarrow>
            calculateBMI w (Fin h) =
              (case w of
                 Fin x \<Rightarrow> if 0 < x then PosInf else if x < 0 then NegInf else NaN
               | PosInf \<Rightarrow> PosInf
               | NegInf \<Rightarrow> NegInf
               | NaN \<Rightarrow> NaN))
         \<and> (h < 0 \<longrightarrow> calculateBMI w (Fin h) = calculateBMI w (Fin \<bar>h\<bar>))"
proof (intro conjI impI)
  assume "h = 0"
  then show "calculateBMI w (Fin h) =
              (case w of
                 Fin x \<Rightarrow> if 0 < x then PosInf else if x < 0 then NegInf else NaN
               | PosInf \<Rightarrow> PosInf
               | NegInf \<Rightarrow> NegInf
               | NaN \<Rightarrow> NaN)"
    by (simp only: calculateBMI_zero)
next
  assume "h < 0"
  then have "Fin h = js_neg (Fin \<bar>h\<bar>)" by simp
  then show "calculateBMI w (Fin h) = calculateBMI w (Fin \<bar>h\<bar>)"
    by (simp only: calculateBMI_neg)
qed

theorem calculateBMI_nonpositive_height_witness:
  "(- 170 :: rat) \<le> 0
   \<and> calculateBMI (Fin 70) (Fin (- 170)) = calculateBMI (Fin 70) (Fin 170)
   \<and> (0 :: rat) \<le> 0
   \<and> calculateBMI (Fin 0) (Fin 0) = NaN \<and> calculateBMI (Fin (- 70)) (Fin 0) = NegInf"
  using calculateBMI_nonpositive_height [of "- 170" "Fin 70"]
    calculateBMI_nonpositive_height [of 0 "Fin 0"]
    calculateBMI_nonpositive_height [of 0 "Fin (- 70)"]
  by simp

text \<open>
  C9, as stated, says that a negative height gives the same finite result as the positive
  one, for every weight and every height other than 0. The two results are the same, but
  not always finite: at weight 70 and the heights \<open>2^-600\<close> and \<open>- 2^-600\<close> the
  square of the height underflows to zero and both results are \<^verbatim>\<open>Infinity\<close>.
\<close>

theorem calculateBMI_height_sign_counterexample:
  "calculateBMI (Fin 70) (Fin (- (1 / 2 ^ 600))) = PosInf
   \<and> calculateBMI (Fin 70) (Fin (1 / 2 ^ 600)) = PosInf"
proof -
  have "calculateBMI (Fin 70) (js_neg (Fin (1 / 2 ^ 600))) = PosInf"
    by (simp only: calculateBMI_neg calculateBMI_underflow)
  then show ?thesis
    using calculateBMI_underflow by (simp only: js_neg.simps simp_thms)
qed

text \<open>
  C9, amended. For every weight and every height other than 0, \<^verbatim>\<open>calculateBMI\<close>
  returns the same number at the height and at its negation, whether that number is
  finite or not: a negative height is not rejected. At weight 70 and the heights 170 and
  \<open>-170\<close> that number is 24.2.
\<close>

theorem calculateBMI_height_sign:
  fixes h :: rat
  assumes "h \<noteq> 0"
  shows "calculateBMI w (Fin (- h)) = calculateBMI w (Fin h)
         \<and> calculateBMI (Fin 70) (Fin (- 170)) = binary64 (242 / 10)
         \<and> calculateBMI (Fin 70) (Fin 170) = binary64 (242 / 10)"
proof -
  have sym: "calculateBMI v (Fin (- x)) = calculateBMI v (Fin x)" for v x
    using calculateBMI_neg [of v "Fin x"] by simp
  from sym [of w h] sym [of "Fin 70" 170] calculateBMI_70_170 show ?thesis by simp
qed

theorem calculateBMI_height_sign_witness:
  "(170 :: rat) \<noteq> 0
   \<and> calculateBMI (Fin 70) (Fin (- 170)) = calculateBMI (Fin 70) (Fin 170)"
  using calculateBMI_height_sign [of 170 "Fin 70"] by simp

section \<open>The FMS total\<close>

text \<open>
  C5. For every record whose seven sub-scores are integers from 0 to 3,
  \<^verbatim>\<open>calculateFMSTotal\<close> returns their sum, which lies between 0 and 21; the record of
  seven twos gives 14.
\<close>

theorem calculateFMSTotal_valid:
  fixes a b c d e f g :: int
  assumes "list_all (\<lambda>x. 0 \<le> x \<and> x \<le> 3) [a, b, c, d, e, f, g]"
  shows "calculateFMSTotal
           \<lparr>deep_squat = Fin (of_int a), hurdle_step = Fin (of_int b),
            inline_lunge = Fin (of_int c), shoulder_mobility = Fin (of_int d),
            active_straight_leg_raise = Fin (of_int e),
            trunk_stability_pushup = Fin (of_int f), rotary_stability = Fin (of_int g)\<rparr>
           = Fin (of_int (a + b + c + d + e + f + g))
         \<and> 0 \<le> a + b + c + d + e + f + g \<and> a + b + c + d + e + f + g \<le> 21
         \<and> calculateFMSTotal
              \<lparr>deep_squat = Fin 2, hurdle_step = Fin 2, inline_lunge = Fin 2,
               shoulder_mobility = Fin 2, active_straight_leg_raise = Fin 2,
               trunk_stability_pushup = Fin 2, rotary_stability = Fin 2\<rparr> = Fin 14"
proof -
  from assms have "list_all (\<lambda>x. \<bar>x\<bar> \<le> 2 ^ 49) [a, b, c, d, e, f, g]" by simp
  then have "calculateFMSTotal
           \<lparr>deep_squat = Fin (of_int a), hurdle_step = Fin (of_int b),
            inline_lunge = Fin (of_int c), shoulder_mobility = Fin (of_int d),
            active_straight_leg_raise = Fin (of_int e),
            trunk_stability_pushup = Fin (of_int f), rotary_stability = Fin (of_int g)\<rparr>
           = Fin (of_int (a + b + c + d + e + f + g))"
    by (rule calculateFMSTotal_int)
  moreover from assms
  have "0 \<le> a + b + c + d + e + f + g" "a + b + c + d + e + f + g \<le> 21" by simp_all
  moreover have "calculateFMSTotal
              \<lparr>deep_squat = Fin 2, hurdle_step = Fin 2, inline_lunge = Fin 2,
               shoulder_mobility = Fin 2, active_straight_leg_raise = Fin 2,
               trunk_stability_pushup = Fin 2, rotary_stability = Fin 2\<rparr> = Fin 14"
    using calculateFMSTotal_initial by (simp only: initial_fmsScores_def)
  ultimately show ?thesis by (intro conjI)
qed

theorem calculateFMSTotal_valid_witness:
  "list_all (\<lambda>x. 0 \<le> x \<and> x \<le> 3) [3, 0, 1, 2, 3, 3, 1 :: int] \<and>
   calculateFMSTotal
     \<lparr>deep_squat = Fin (of_int 3), hurdle_step = Fin (of_int 0),
      inline_lunge = Fin (of_int 1), shoulder_mobility = Fin (of_int 2),
      active_straight_leg_raise = Fin (of_int 3),
      trunk_stability_pushup = Fin (of_int 3), rotary_stability = Fin (of_int 1)\<rparr>
     = Fin 13"
  using calculateFMSTotal_valid [of 3 0 1 2 3 3 1] by simp

text \<open>
  C3, as stated, asks for an \<^verbatim>\<open>InvalidScore\<close> error when a sub-score lies outside
  the range 0 to 3. The function checks no range: with six sub-scores of 2 and one of 4
  it returns 16.
\<close>

theorem calculateFMSTotal_out_of_range_counterexample:
  "calculateFMSTotal
     \<lparr>deep_squat = Fin 2, hurdle_step = Fin 2, inline_lunge = Fin 2,
      shoulder_mobility = Fin 2, active_straight_leg_raise = Fin 2,
      trunk_stability_pushup = Fin 2, rotary_stability = Fin 4\<rparr> = Fin 16"
  using calculateFMSTotal_int [of 2 2 2 2 2 2 4] by simp

text \<open>
  C3, amended. For every record of seven integer sub-scores of magnitude at most
  \<open>2^49\<close>, of which at least one lies outside the range 0 to 3,
  \<^verbatim>\<open>calculateFMSTotal\<close> raises no error and returns the sum of the seven fields.
\<close>

theorem calculateFMSTotal_out_of_range:
  fixes a b c d e f g :: int
  assumes "\<exists>x \<in> set [a, b, c, d, e, f, g]. x < 0 \<or> 3 < x"
    and "list_all (\<lambda>x. \<bar>x\<bar> \<le> 2 ^ 49) [a, b, c, d, e, f, g]"
  shows "calculateFMSTotal
           \<lparr>deep_squat = Fin (of_int a), hurdle_step = Fin (of_int b),
            inline_lunge = Fin (of_int c), shoulder_mobility = Fin (of_int d),
            active_straight_leg_raise = Fin (of_int e),
            trunk_stability_pushup = Fin (of_int f), rotary_stability = Fin (of_int g)\<rparr>
         = Fin (of_int (a + b + c + d + e + f + g))"
  using assms(2) by (rule calculateFMSTotal_int)

theorem calculateFMSTotal_out_of_range_witness:
  "(\<exists>x \<in> set [2, 2, 7, 2, - 1, 2, 4 :: int]. x < 0 \<or> 3 < x)
   \<and> list_all (\<lambda>x. \<bar>x\<bar> \<le> 2 ^ 49) [2, 2, 7, 2, - 1, 2, 4 :: int]
   \<and> calculateFMSTotal
     \<lparr>deep_squat = Fin (of_int 2), hurdle_step = Fin (of_int 2), inline_lunge = Fin (of_int 7),
      shoulder_mobility = Fin (of_int 2), active_straight_leg_raise = Fin (of_int (- 1)),
      trunk_stability_pushup = Fin (of_int 2), rotary_stability = Fin (of_int 4)\<rparr> = Fin 18"
proof -
  have h: "\<exists>x \<in> set [2, 2, 7, 2, - 1, 2, 4 :: int]. x < 0 \<or> 3 < x" by simp
  have b: "list_all (\<lambda>x. \<bar>x\<bar> \<le> 2 ^ 49) [2, 2, 7, 2, - 1, 2, 4 :: int]" by simp
  from calculateFMSTotal_out_of_range [OF h b] h b show ?thesis by simp
qed

section \<open>The wizard and the shared classification\<close>

text \<open>
  C6. The source holds two threshold rules. \<^verbatim>\<open>getFMSRiskLevel\<close> gives the level
  \<^verbatim>\<open>low\<close> exactly from 15 up, the wizard's FMS step shows low risk exactly from 14
  up, and both put the lower cutoff at 12. With the same colour classes on both sides,
  the two differ exactly on the totals from 14 up to but not including 15. The total 14 is
  the one the wizard starts with: it is shown as low risk in green, while
  \<^verbatim>\<open>getFMSRiskLevel(14)\<close> is moderate and yellow.
\<close>

theorem risk_thresholds_disagree:
  "calculateFMSTotal initial_fmsScores = Fin 14
   \<and> fms_risk_text initial_fmsScores = ''Low injury risk''
   \<and> fms_total_color initial_fmsScores = ''text-green-600''
   \<and> level (getFMSRiskLevel (Fin 14)) = ''moderate''
   \<and> color (getFMSRiskLevel (Fin 14)) = ''text-yellow-600''
   \<and> (\<forall>v. (level (getFMSRiskLevel v) = ''low'') = js_ge v (Fin 15))
   \<and> (\<forall>s. (fms_risk_text s = ''Low injury risk'') = js_ge (calculateFMSTotal s) (Fin 14))
   \<and> (\<forall>v. (level (getFMSRiskLevel v) = ''high'') = (\<not> js_ge v (Fin 12)))
   \<and> (\<forall>s. (fms_risk_text s = ''Higher injury risk - consider corrective exercises'')
            = (\<not> js_ge (calculateFMSTotal s) (Fin 12)))
   \<and> (\<forall>s. (fms_total_color s \<noteq> color (getFMSRiskLevel (calculateFMSTotal s)))
            = (js_ge (calculateFMSTotal s) (Fin 14) \<and> \<not> js_ge (calculateFMSTotal s) (Fin 15)))"
proof -
  have ge: "js_ge v (Fin 15) \<Longrightarrow> js_ge v (Fin 14)" "js_ge v (Fin 14) \<Longrightarrow> js_ge v (Fin 12)" for v
    by (cases v; simp)+
  have 1: "calculateFMSTotal initial_fmsScores = Fin 14"
    by (rule calculateFMSTotal_initial)
  have 2: "fms_risk_text initial_fmsScores = ''Low injury risk''"
    by (simp add: fms_risk_text_def 1)
  have 3: "fms_total_color initial_fmsScores = ''text-green-600''"
    by (simp add: fms_total_color_def 1)
  have 4: "level (getFMSRiskLevel (Fin 14)) = ''moderate''"
    "color (getFMSRiskLevel (Fin 14)) = ''text-yellow-600''"
    by (simp_all add: getFMSRiskLevel_def)
  have 5: "(level (getFMSRiskLevel v) = ''low'') = js_ge v (Fin 15)" for v
    by (simp add: getFMSRiskLevel_def)
  have 6: "(fms_risk_text s = ''Low injury risk'') = js_ge (calculateFMSTotal s) (Fin 14)" for s
    by (simp add: fms_risk_text_def)
  have 7: "(level (getFMSRiskLevel v) = ''high'') = (\<not> js_ge v (Fin 12))" for v
    using ge [of v] by (auto simp add: getFMSRiskLevel_def)
  have 8: "(fms_risk_text s = ''Higher injury risk - consider corrective exercises'')
            = (\<not> js_ge (calculateFMSTotal s) (Fin 12))" for s
    using ge [of "calculateFMSTotal s"] by (auto simp add: fms_risk_text_def)
  have 9: "(fms_total_color s \<noteq> color (getFMSRiskLevel (calculateFMSTotal s)))
            = (js_ge (calculateFMSTotal s) (Fin 14) \<and> \<not> js_ge (calculateFMSTotal s) (Fin 15))" for s
    using ge [of "calculateFMSTotal s"] by (auto simp add: fms_total_color_def getFMSRiskLevel_def)
  from 1 2 3 4 5 6 7 8 9 show ?thesis by blast
qed

section \<open>The submitted record\<close>

text \<open>
  C10. Whenever \<^verbatim>\<open>handleSubmit\<close> gets as far as posting an assessment, the field
  \<^verbatim>\<open>total_score\<close> of its \<^verbatim>\<open>fms_scores\<close> object equals
  \<^verbatim>\<open>calculateFMSTotal\<close> of the seven sub-scores of that same object, which is their
  sum. For the sub-scores the wizard can hold, that total is an integer from 0 to 21.
\<close>

theorem handleSubmit_total_score:
  assumes "handleSubmit session fmsScores = Inr p"
  shows "total_score p = calculateFMSTotal (FMSInput.truncate p)
         \<and> total_score p =
             js_add (js_add (js_add (js_add (js_add (js_add (js_add (Fin 0)
               (deep_squat p)) (hurdle_step p)) (inline_lunge p)) (shoulder_mobility p))
               (active_straight_leg_raise p)) (trunk_stability_pushup p)) (rotary_stability p)
         \<and> (wizard_fmsScores fmsScores \<longrightarrow>
               (\<exists>n::int. 0 \<le> n \<and> n \<le> 21 \<and> total_score p = Fin (of_int n)))"
proof -
  from assms have p: "p =
      \<lparr>deep_squat = deep_squat fmsScores, hurdle_step = hurdle_step fmsScores,
       inline_lunge = inline_lunge fmsScores,
       shoulder_mobility = shoulder_mobility fmsScores,
       active_straight_leg_raise = active_straight_leg_raise fmsScores,
       trunk_stability_pushup = trunk_stability_pushup fmsScores,
       rotary_stability = rotary_stability fmsScores,
       total_score = calculateFMSTotal fmsScores\<rparr>"
    by (simp add: handleSubmit_def split: if_splits)
  have t: "FMSInput.truncate p = fmsScores"
    by (simp add: p FMSInput.truncate_def)
  have tot: "total_score p = calculateFMSTotal fmsScores" by (simp add: p)
  have 1: "total_score p = calculateFMSTotal (FMSInput.truncate p)"
    by (simp only: t tot)
  have 2: "total_score p =
             js_add (js_add (js_add (js_add (js_add (js_add (js_add (Fin 0)
               (deep_squat p)) (hurdle_step p)) (inline_lunge p)) (shoulder_mobility p))
               (active_straight_leg_raise p)) (trunk_stability_pushup p)) (rotary_stability p)"
    by (simp add: p calculateFMSTotal_def Object_values_def)
  have 3: "wizard_fmsScores fmsScores \<longrightarrow>
               (\<exists>n::int. 0 \<le> n \<and> n \<le> 21 \<and> total_score p = Fin (of_int n))"
    using wizard_fmsScores_total tot by simp
  from 1 2 3 show ?thesis by blast
qed

theorem handleSubmit_total_score_witness:
  "handleSubmit True initial_fmsScores =
     Inr \<lparr>deep_squat = Fin 2, hurdle_step = Fin 2, inline_lunge = Fin 2,
          shoulder_mobility = Fin 2, active_straight_leg_raise = Fin 2,
          trunk_stability_pushup = Fin 2, rotary_stability = Fin 2, total_score = Fin 14\<rparr>
   \<and> wizard_fmsScores initial_fmsScores
   \<and> total_score
        \<lparr>deep_squat = Fin 2, hurdle_step = Fin 2, inline_lunge = Fin 2,
         shoulder_mobility = Fin 2, active_straight_leg_raise = Fin 2,
         trunk_stability_pushup = Fin 2, rotary_stability = Fin 2, total_score = Fin 14\<rparr>
      = calculateFMSTotal initial_fmsScores"
proof -
  let ?p = "\<lparr>deep_squat = Fin 2, hurdle_step = Fin 2, inline_lunge = Fin 2,
          shoulder_mobility = Fin 2, active_straight_leg_raise = Fin 2,
          trunk_stability_pushup = Fin 2, rotary_stability = Fin 2, total_score = Fin 14\<rparr>"
  have h: "handleSubmit True initial_fmsScores = Inr ?p"
    by (simp add: handleSubmit_def calculateFMSTotal_initial) (simp add: initial_fmsScores_def)
  have tr: "FMSInput.truncate ?p = initial_fmsScores"
    by (simp add: FMSInput.truncate_def initial_fmsScores_def)
  from handleSubmit_total_score [OF h] have "total_score ?p = calculateFMSTotal (FMSInput.truncate ?p)"
    by (rule conjunct1)
  with tr have "total_score ?p = calculateFMSTotal initial_fmsScores" by simp
  with h wizard_fmsScores.initial show ?thesis by blast
qed

end
